theory Spec2Isabelle
  imports Main "HOL-Library.AList"
begin

section \<open>The Customize Profile form: schema validation and the save flow\<close>

text \<open>
  The development embeds \<open>profileSchema\<close> and \<open>handleSaveChanges\<close> of the
  \<open>CustomizeProfile\<close> component. Strings are lists of characters and \<open>length\<close>
  stands for the \<open>.length\<close> of a JavaScript string. Two things the component calls
  are not part of it and are parameters of the model: the \<open>URL\<close> constructor that the
  validator's \<open>.url()\<close> check runs, and the update endpoint behind \<open>fetch\<close>.
\<close>

subsection \<open>The validator library's string checks\<close>

text \<open>
  A string schema is a list of checks in the order in which they were chained. Parsing
  runs every check in that order and records one issue, carrying the check's message,
  for each check that fails; a failed check does not stop the later ones.
  \<open>.nonempty(m)\<close> is \<open>.min(1, m)\<close>.
\<close>

datatype check = Min nat string | Max nat string | Url string

definition nonempty :: "string \<Rightarrow> check" where
  "nonempty m = Min 1 m"

fun check_issues :: "(string \<Rightarrow> bool) \<Rightarrow> string \<Rightarrow> check \<Rightarrow> string list" where
  "check_issues U s (Min n m) = (if length s < n then [m] else [])"
| "check_issues U s (Max n m) = (if length s > n then [m] else [])"
| "check_issues U s (Url m) = (if U s then [] else [m])"

definition string_issues :: "(string \<Rightarrow> bool) \<Rightarrow> check list \<Rightarrow> string \<Rightarrow> string list" where
  "string_issues U cs s = concat (map (check_issues U s) cs)"

text \<open>\<open>.optional()\<close> accepts \<open>undefined\<close> and otherwise parses with the inner schema.\<close>

fun optional :: "('a \<Rightarrow> string list) \<Rightarrow> 'a option \<Rightarrow> string list" where
  "optional p None = []"
| "optional p (Some s) = p s"

text \<open>
  \<open>z.record(v)\<close> parses the value of every own key of the object, in the object's key
  order.
\<close>

definition record_issues :: "(string \<Rightarrow> string list) \<Rightarrow> (string \<times> string) list \<Rightarrow> string list" where
  "record_issues p ls = concat (map (\<lambda>(k, v). p v) ls)"

subsection \<open>The form state and \<open>profileSchema\<close>\<close>

text \<open>
  The \<open>links\<close> object is an association list in the object's key order; the keys of an
  object are distinct.
\<close>

type_synonym links = "(string \<times> string) list"

record draft =
  name :: string
  bio :: string
  background :: string
  avatar :: string
  borderColor :: string
  links :: links

record form_state = draft +
  message :: "string option"
  error :: "string option"
  saving :: bool

definition name_length_msg :: string where
  "name_length_msg = ''Name must be between 3 and 15 characters long''"

definition name_checks :: "check list" where
  "name_checks = [Min 3 name_length_msg, Max 15 name_length_msg, nonempty ''Name cannot be empty'']"

definition bio_checks :: "check list" where
  "bio_checks = [Max 200 ''Bio must be 200 characters or fewer'']"

definition background_checks :: "check list" where
  "background_checks = [Url ''Invalid background URL'', nonempty ''Background URL cannot be empty'']"

definition avatar_checks :: "check list" where
  "avatar_checks = [Url ''Invalid avatar URL'', nonempty ''Avatar URL cannot be empty'']"

definition link_checks :: "check list" where
  "link_checks = [Url ''Invalid URL'']"

text \<open>
  The issues of \<open>profileSchema.parse({name, bio, background, avatar, borderColor, links})\<close>,
  field by field in the order of the schema's shape. The component declares every field
  of its state a string, so \<open>bio\<close>, \<open>borderColor\<close> and \<open>links\<close> reach their
  \<open>.optional()\<close> schemas as present values.
\<close>

definition profileSchema_issues :: "(string \<Rightarrow> bool) \<Rightarrow> 'a draft_scheme \<Rightarrow> string list" where
  "profileSchema_issues U d =
     string_issues U name_checks (name d)
     @ optional (string_issues U bio_checks) (Some (bio d))
     @ string_issues U background_checks (background d)
     @ string_issues U avatar_checks (avatar d)
     @ optional (string_issues U []) (Some (borderColor d))
     @ optional (record_issues (string_issues U link_checks)) (Some (links d))"

text \<open>
  \<open>parse\<close> throws a \<open>ZodError\<close> holding all issues when there is at least one;
  \<open>errors[0]\<close> of a thrown error is its first issue.
\<close>

datatype zod_error = ZodError string "string list"

fun errors :: "zod_error \<Rightarrow> string list" where
  "errors (ZodError i rest) = i # rest"

fun first_error :: "zod_error \<Rightarrow> string" where
  "first_error (ZodError i rest) = i"

definition profileSchema_parse :: "(string \<Rightarrow> bool) \<Rightarrow> 'a draft_scheme \<Rightarrow> zod_error + unit" where
  "profileSchema_parse U d =
     (case profileSchema_issues U d of [] \<Rightarrow> Inr () | i # rest \<Rightarrow> Inl (ZodError i rest))"

subsection \<open>The save flow\<close>

text \<open>
  The loop \<open>for (const key of Object.keys(links)) if (links[key] === "") delete links[key]\<close>.
  The keys are read once, before the loop; the object is changed in place.
\<close>

fun clean_loop :: "string list \<Rightarrow> links \<Rightarrow> links" where
  "clean_loop [] ls = ls"
| "clean_loop (key # keys) ls =
     clean_loop keys (if map_of ls key = Some '''' then AList.delete key ls else ls)"

definition clean_links :: "links \<Rightarrow> links" where
  "clean_links ls = clean_loop (map fst ls) ls"

text \<open>The body of the \<open>PUT\<close> request; \<open>None\<close> in \<open>newBio\<close> is \<open>null\<close>.\<close>

record payload =
  userId :: string
  newName :: string
  newImage :: string
  newBio :: "string option"
  newBackgroundImage :: string
  newBorderColor :: string
  newLinks :: links

text \<open>
  What \<open>data.message\<close> can be once the body has been read: the field is missing, it is
  \<open>null\<close>, or it is a string (a message of another JSON type is left out). A fetch
  ends in one of three ways: \<open>fetch\<close> itself rejects and there is no response
  (\<open>Threw\<close>); a response with some status arrives but \<open>response.json()\<close> or the read
  of \<open>data.message\<close> throws, the body not being a JSON object (\<open>Unreadable\<close>); or a
  response arrives with a status and a body that was read (\<open>Responded\<close>).
\<close>

datatype json_field = Absent | JNull | JStr string

datatype fetch_outcome = Threw | Unreadable nat | Responded nat json_field

text \<open>\<open>response.ok\<close>: the status is in the range 200 to 299.\<close>

definition ok :: "nat \<Rightarrow> bool" where
  "ok status = (200 \<le> status \<and> status \<le> 299)"

text \<open>
  \<open>`${v}`\<close> in a template literal, and what \<open>setMessage(v)\<close> leaves in the state, where
  \<open>None\<close> stands for \<open>null\<close> and \<open>undefined\<close>: nothing to show.
\<close>

fun template :: "json_field \<Rightarrow> string" where
  "template Absent = ''undefined''"
| "template JNull = ''null''"
| "template (JStr s) = s"

fun stored :: "json_field \<Rightarrow> string option" where
  "stored Absent = None"
| "stored JNull = None"
| "stored (JStr s) = Some s"

text \<open>The two collaborators of the component: the \<open>URL\<close> constructor and the endpoint.\<close>

record platform =
  url_parses :: "string \<Rightarrow> bool"
  update_endpoint :: "payload \<Rightarrow> fetch_outcome"

text \<open>
  The run records what it did: each call of \<open>profileSchema.parse\<close> and each request to
  \<open>/api/updateUser\<close>.
\<close>

datatype event = Parsed | Requested payload

definition build_payload :: "string \<Rightarrow> form_state \<Rightarrow> payload" where
  "build_payload uid st =
     \<lparr> userId = uid, newName = name st, newImage = avatar st,
       newBio = (if bio st = '''' then None else Some (bio st)),
       newBackgroundImage = background st, newBorderColor = borderColor st,
       newLinks = links st \<rparr>"

text \<open>The branch \<open>if (!userId)\<close>: \<open>!userId\<close> holds for \<open>undefined\<close> and for \<open>""\<close>.\<close>

definition not_authenticated :: "form_state \<Rightarrow> form_state \<times> event list" where
  "not_authenticated st = (st\<lparr>error := Some ''User not authenticated'', saving := False\<rparr>, [])"

text \<open>The \<open>try\<close> block with its \<open>catch\<close> and \<open>finally\<close>, for a user identifier that is present.\<close>

definition save_as :: "platform \<Rightarrow> string \<Rightarrow> form_state \<Rightarrow> form_state \<times> event list" where
  "save_as env uid st1 =
     (let st2 = st1\<lparr>links := clean_links (links st1)\<rparr> in
      case profileSchema_parse (url_parses env) st2 of
        Inl validationError \<Rightarrow>
          (st2\<lparr>error := Some (first_error validationError), saving := False\<rparr>, [Parsed])
      | Inr u \<Rightarrow>
          let p = build_payload uid st2 in
          (case update_endpoint env p of
             Threw \<Rightarrow>
               (st2\<lparr>error := Some ''An unexpected error occurred'', saving := False\<rparr>,
                [Parsed, Requested p])
           | Unreadable status \<Rightarrow>
               (st2\<lparr>error := Some ''An unexpected error occurred'', saving := False\<rparr>,
                [Parsed, Requested p])
           | Responded status m \<Rightarrow>
               if ok status then
                 (st2\<lparr>message := stored m, saving := False\<rparr>, [Parsed, Requested p])
               else
                 (st2\<lparr>error := Some (''Error: '' @ template m), saving := False\<rparr>,
                  [Parsed, Requested p])))"

definition handleSaveChanges ::
  "platform \<Rightarrow> string option \<Rightarrow> form_state \<Rightarrow> form_state \<times> event list" where
  "handleSaveChanges env uid st0 =
     (let st1 = st0\<lparr>message := None, error := None, saving := True\<rparr> in
      case uid of
        None \<Rightarrow> not_authenticated st1
      | Some u \<Rightarrow> if u = '''' then not_authenticated st1 else save_as env u st1)"

text \<open>
  The operation \<open>validate\<close> of the flow, put together from its three steps in the
  source: the links are cleaned, the cleaned draft is parsed, and of a thrown
  \<open>ZodError\<close> the \<open>catch\<close> branch keeps \<open>errors[0].message\<close>.
\<close>

definition validate :: "(string \<Rightarrow> bool) \<Rightarrow> 'a draft_scheme \<Rightarrow> string + 'a draft_scheme" where
  "validate U d =
     (let cleaned = d\<lparr>links := clean_links (links d)\<rparr> in
      case profileSchema_parse U cleaned of
        Inl validationError \<Rightarrow> Inl (first_error validationError)
      | Inr u \<Rightarrow> Inr cleaned)"

text \<open>The requests among the events of a run.\<close>

fun requests :: "event list \<Rightarrow> payload list" where
  "requests [] = []"
| "requests (Parsed # evs) = requests evs"
| "requests (Requested p # evs) = p # requests evs"

text \<open>
  The answer of a successful submission: the run sent a request and the endpoint
  answered it with a success status; the value is the \<open>message\<close> field of that answer.
\<close>

definition accepted :: "platform \<Rightarrow> event list \<Rightarrow> json_field option" where
  "accepted env evs =
     (case requests evs of
        [] \<Rightarrow> None
      | p # ps \<Rightarrow>
          (case update_endpoint env p of
             Threw \<Rightarrow> None
           | Unreadable status \<Rightarrow> None
           | Responded status m \<Rightarrow> if ok status then Some m else None))"

text \<open>
  A successful submission: the run sent a request and the endpoint answered it with a
  success status.
\<close>

definition succeeded :: "platform \<Rightarrow> event list \<Rightarrow> bool" where
  "succeeded env evs =
     (case requests evs of
        [] \<Rightarrow> False
      | p # ps \<Rightarrow>
          (case update_endpoint env p of
             Threw \<Rightarrow> False
           | Unreadable status \<Rightarrow> ok status
           | Responded status m \<Rightarrow> ok status))"

text \<open>
  Modelled from the spec: the update endpoint \<open>/api/updateUser\<close> is not part of the
  component. Its interface is that it "returns a JSON body with a \<open>message\<close> field on both
  success and failure paths", the message being the text to display; apart from that, a
  request can fail in transport. So a reply conforms when \<open>fetch\<close> rejects or the body
  was read and carries a message string.
\<close>

fun conforms :: "fetch_outcome \<Rightarrow> bool" where
  "conforms Threw = True"
| "conforms (Unreadable status) = False"
| "conforms (Responded status Absent) = False"
| "conforms (Responded status JNull) = False"
| "conforms (Responded status (JStr m)) = True"

subsection \<open>The drafts and collaborators of the examples\<close>

text \<open>
  A URL check for the examples: it accepts the two image addresses of the specification's
  end-to-end drafts and nothing else. On every string the examples hand to it, it answers
  as the \<open>URL\<close> constructor does.
\<close>

definition example_urls :: "string \<Rightarrow> bool" where
  "example_urls s = (s = ''https://x.com/a.png'' \<or> s = ''https://x.com/b.png'')"

definition example_form :: "string \<Rightarrow> string \<Rightarrow> links \<Rightarrow> form_state" where
  "example_form n b ls =
     \<lparr> name = n, bio = b, background = ''https://x.com/a.png'', avatar = ''https://x.com/b.png'',
       borderColor = ''#ffffff'', links = ls,
       message = Some ''Profile updated'', error = Some ''Invalid URL'', saving = False \<rparr>"

definition alice :: form_state where
  "alice = example_form ''Alice'' '''' [(''website'', '''')]"

definition long_bio :: string where
  "long_bio = replicate 201 (CHR ''a'')"

text \<open>Endpoints that answer every request the same way.\<close>

definition answering :: "fetch_outcome \<Rightarrow> platform" where
  "answering r = \<lparr> url_parses = example_urls, update_endpoint = (\<lambda>p. r) \<rparr>"

section \<open>Properties\<close>

subsection \<open>Cleaning the links\<close>

text \<open>
  On an object, whose keys are distinct, the loop removes exactly the entries whose value
  is the empty string.
\<close>

lemma clean_step:
  assumes "distinct (map fst ls)"
  shows "(if map_of ls key = Some [] then AList.delete key ls else ls)
         = filter (\<lambda>(k, v). \<not> (k = key \<and> v = [])) ls"
proof (cases "map_of ls key = Some []")
  case True
  have "AList.delete key ls = filter (\<lambda>(k, v). k \<noteq> key) ls"
    by (auto simp: AList.delete_eq intro: filter_cong)
  also have "\<dots> = filter (\<lambda>(k, v). \<not> (k = key \<and> v = [])) ls"
  proof (rule filter_cong [OF refl])
    fix x assume x: "x \<in> set ls"
    have "map_of ls (fst x) = Some (snd x)"
      using x assms by (simp add: map_of_eq_Some_iff)
    then have "fst x = key \<Longrightarrow> snd x = []"
      using True by auto
    then show "(case x of (k, v) \<Rightarrow> k \<noteq> key) = (case x of (k, v) \<Rightarrow> \<not> (k = key \<and> v = []))"
      by (cases x) auto
  qed
  finally show ?thesis using True by simp
next
  case False
  have "\<forall>x \<in> set ls. (case x of (k, v) \<Rightarrow> \<not> (k = key \<and> v = []))"
    using False assms by (auto simp: map_of_eq_Some_iff)
  then have "filter (\<lambda>(k, v). \<not> (k = key \<and> v = [])) ls = ls"
    by (simp only: filter_id_conv)
  then show ?thesis using False by simp
qed

lemma distinct_fst_filter: "distinct (map fst ls) \<Longrightarrow> distinct (map fst (filter P ls))"
  by (simp add: distinct_map_filter)

lemma clean_loop_filter:
  "distinct (map fst ls) \<Longrightarrow>
   clean_loop keys ls = filter (\<lambda>(k, v). \<not> (k \<in> set keys \<and> v = '''')) ls"
proof (induction keys arbitrary: ls)
  case Nil
  then show ?case by simp
next
  case (Cons key keys)
  let ?ls' = "filter (\<lambda>(k, v). \<not> (k = key \<and> v = '''')) ls"
  have d: "distinct (map fst ?ls')"
    using Cons.prems by (rule distinct_fst_filter)
  have "clean_loop (key # keys) ls = clean_loop keys ?ls'"
    using clean_step [OF Cons.prems, of key] by simp
  also have "\<dots> = filter (\<lambda>(k, v). \<not> (k \<in> set keys \<and> v = '''')) ?ls'"
    by (rule Cons.IH [OF d])
  also have "\<dots> = filter (\<lambda>(k, v). \<not> (k \<in> set (key # keys) \<and> v = '''')) ls"
    by (auto intro: filter_cong)
  finally show ?case .
qed

lemma clean_links_filter:
  assumes "distinct (map fst ls)"
  shows "clean_links ls = filter (\<lambda>(k, v). v \<noteq> '''') ls"
proof -
  have "clean_links ls = filter (\<lambda>(k, v). \<not> (k \<in> set (map fst ls) \<and> v = '''')) ls"
    unfolding clean_links_def using assms by (rule clean_loop_filter)
  also have "\<dots> = filter (\<lambda>(k, v). v \<noteq> '''') ls"
    by (rule filter_cong) force+
  finally show ?thesis .
qed

subsection \<open>The issues of each field\<close>

lemma name_issues:
  "string_issues U name_checks s =
     (if s = [] then [name_length_msg, ''Name cannot be empty'']
      else if length s < 3 \<or> 15 < length s then [name_length_msg] else [])"
  by (auto simp: string_issues_def name_checks_def nonempty_def)

lemma bio_issues:
  "string_issues U bio_checks s =
     (if 200 < length s then [''Bio must be 200 characters or fewer''] else [])"
  by (simp add: string_issues_def bio_checks_def)

lemma background_issues:
  "string_issues U background_checks s =
     (if U s then [] else [''Invalid background URL''])
     @ (if s = [] then [''Background URL cannot be empty''] else [])"
  by (auto simp: string_issues_def background_checks_def nonempty_def)

lemma avatar_issues:
  "string_issues U avatar_checks s =
     (if U s then [] else [''Invalid avatar URL''])
     @ (if s = [] then [''Avatar URL cannot be empty''] else [])"
  by (auto simp: string_issues_def avatar_checks_def nonempty_def)

lemma link_issues:
  "record_issues (string_issues U link_checks) ls =
     map (\<lambda>kv. ''Invalid URL'') (filter (\<lambda>(k, v). \<not> U v) ls)"
  by (induction ls) (auto simp: record_issues_def string_issues_def link_checks_def)

lemma profileSchema_issues_eq:
  "profileSchema_issues U d =
     string_issues U name_checks (name d)
     @ string_issues U bio_checks (bio d)
     @ string_issues U background_checks (background d)
     @ string_issues U avatar_checks (avatar d)
     @ record_issues (string_issues U link_checks) (links d)"
  by (simp add: profileSchema_issues_def string_issues_def)

subsection \<open>The outcome of \<open>validate\<close> and of a run\<close>

lemma issues_cong:
  "name d = name d' \<Longrightarrow> bio d = bio d' \<Longrightarrow> background d = background d' \<Longrightarrow>
   avatar d = avatar d' \<Longrightarrow> links d = links d' \<Longrightarrow>
   profileSchema_issues U d = profileSchema_issues U d'"
  by (simp add: profileSchema_issues_def string_issues_def)

lemma build_payload_cong:
  "name d = name d' \<Longrightarrow> bio d = bio d' \<Longrightarrow> background d = background d' \<Longrightarrow>
   avatar d = avatar d' \<Longrightarrow> borderColor d = borderColor d' \<Longrightarrow> links d = links d' \<Longrightarrow>
   build_payload u d = build_payload u d'"
  by (simp add: build_payload_def)

lemma validate_Inl_iff:
  "validate U d = Inl msg \<longleftrightarrow>
     (\<exists>rest. profileSchema_issues U (d\<lparr>links := clean_links (links d)\<rparr>) = msg # rest)"
  by (auto simp: validate_def profileSchema_parse_def Let_def split: list.splits)

lemma validate_Inr_iff:
  "validate U d = Inr d' \<longleftrightarrow>
     profileSchema_issues U (d\<lparr>links := clean_links (links d)\<rparr>) = []
     \<and> d' = d\<lparr>links := clean_links (links d)\<rparr>"
  by (auto simp: validate_def profileSchema_parse_def Let_def split: list.splits)

lemma save_as_invalid:
  assumes "validate (url_parses env) st = Inl msg"
  shows "save_as env u (st\<lparr>message := None, error := None, saving := True\<rparr>)
         = (st\<lparr>links := clean_links (links st), message := None, error := Some msg, saving := False\<rparr>, [Parsed])"
proof -
  let ?st1 = "st\<lparr>message := None, error := None, saving := True\<rparr>"
  let ?st2 = "st\<lparr>message := None, error := None, saving := True, links := clean_links (links st)\<rparr>"
  obtain rest where "profileSchema_issues (url_parses env) (st\<lparr>links := clean_links (links st)\<rparr>) = msg # rest"
    using assms by (auto simp: validate_Inl_iff)
  moreover have "profileSchema_issues (url_parses env) ?st2
      = profileSchema_issues (url_parses env) (st\<lparr>links := clean_links (links st)\<rparr>)"
    by (rule issues_cong) simp_all
  ultimately have "profileSchema_parse (url_parses env) ?st2 = Inl (ZodError msg rest)"
    by (simp add: profileSchema_parse_def)
  then show ?thesis
    by (simp add: save_as_def Let_def)
qed

lemma save_as_valid:
  assumes "validate (url_parses env) st = Inr d"
  shows "save_as env u (st\<lparr>message := None, error := None, saving := True\<rparr>)
         = (case update_endpoint env (build_payload u d) of
              Threw \<Rightarrow> (d\<lparr>message := None, error := Some ''An unexpected error occurred'', saving := False\<rparr>,
                        [Parsed, Requested (build_payload u d)])
            | Unreadable status \<Rightarrow>
                (d\<lparr>message := None, error := Some ''An unexpected error occurred'', saving := False\<rparr>,
                 [Parsed, Requested (build_payload u d)])
            | Responded status m \<Rightarrow>
                if ok status then (d\<lparr>message := stored m, error := None, saving := False\<rparr>,
                                   [Parsed, Requested (build_payload u d)])
                else (d\<lparr>message := None, error := Some (''Error: '' @ template m), saving := False\<rparr>,
                      [Parsed, Requested (build_payload u d)]))"
proof -
  let ?st1 = "st\<lparr>message := None, error := None, saving := True\<rparr>"
  let ?st2 = "st\<lparr>message := None, error := None, saving := True, links := clean_links (links st)\<rparr>"
  have d: "d = st\<lparr>links := clean_links (links st)\<rparr>"
    and "profileSchema_issues (url_parses env) (st\<lparr>links := clean_links (links st)\<rparr>) = []"
    using assms by (auto simp: validate_Inr_iff)
  moreover have "profileSchema_issues (url_parses env) ?st2
      = profileSchema_issues (url_parses env) (st\<lparr>links := clean_links (links st)\<rparr>)"
    by (rule issues_cong) simp_all
  ultimately have parse: "profileSchema_parse (url_parses env) ?st2 = Inr ()"
    by (simp add: profileSchema_parse_def)
  have p: "build_payload u ?st2 = build_payload u d"
    unfolding d by (rule build_payload_cong) simp_all
  show ?thesis
    by (simp add: save_as_def Let_def parse p split: fetch_outcome.splits) (simp add: d)
qed

lemma handle_user:
  "handleSaveChanges env (Some (c # cs)) st
     = save_as env (c # cs) (st\<lparr>message := None, error := None, saving := True\<rparr>)"
  by (simp add: handleSaveChanges_def)

lemma handle_no_user:
  "uid = None \<or> uid = Some [] \<Longrightarrow>
   handleSaveChanges env uid st
     = (st\<lparr>message := None, error := Some ''User not authenticated'', saving := False\<rparr>, [])"
  by (auto simp: handleSaveChanges_def not_authenticated_def)

lemma handle_invalid:
  assumes "validate (url_parses env) st = Inl msg"
  shows "handleSaveChanges env (Some (c # cs)) st
         = (st\<lparr>links := clean_links (links st), message := None, error := Some msg, saving := False\<rparr>, [Parsed])"
  by (simp only: handle_user save_as_invalid [OF assms])

lemma handle_valid:
  assumes "validate (url_parses env) st = Inr d"
  shows "handleSaveChanges env (Some (c # cs)) st
         = (case update_endpoint env (build_payload (c # cs) d) of
              Threw \<Rightarrow> (d\<lparr>message := None, error := Some ''An unexpected error occurred'', saving := False\<rparr>,
                        [Parsed, Requested (build_payload (c # cs) d)])
            | Unreadable status \<Rightarrow>
                (d\<lparr>message := None, error := Some ''An unexpected error occurred'', saving := False\<rparr>,
                 [Parsed, Requested (build_payload (c # cs) d)])
            | Responded status m \<Rightarrow>
                if ok status then (d\<lparr>message := stored m, error := None, saving := False\<rparr>,
                                   [Parsed, Requested (build_payload (c # cs) d)])
                else (d\<lparr>message := None, error := Some (''Error: '' @ template m), saving := False\<rparr>,
                      [Parsed, Requested (build_payload (c # cs) d)]))"
  by (simp only: handle_user save_as_valid [OF assms])

lemma validate_cases:
  obtains msg where "validate U d = Inl msg"
  | "validate U d = Inr (d\<lparr>links := clean_links (links d)\<rparr>)"
  by (cases "validate U d") (auto simp: validate_Inr_iff)

lemma uid_cases:
  obtains "uid = None \<or> uid = Some []" | c cs where "uid = Some (c # cs)"
  by (cases uid; cases "the uid") auto

text \<open>The violation that \<open>validate\<close> reports when a field before it is in order.\<close>

lemma validate_name:
  "length (name d) < 3 \<or> 15 < length (name d) \<Longrightarrow> validate U d = Inl name_length_msg"
  by (auto simp: validate_Inl_iff profileSchema_issues_eq name_issues)

lemma validate_bio:
  "3 \<le> length (name d) \<Longrightarrow> length (name d) \<le> 15 \<Longrightarrow> 200 < length (bio d) \<Longrightarrow>
   validate U d = Inl ''Bio must be 200 characters or fewer''"
  by (auto simp: validate_Inl_iff profileSchema_issues_eq name_issues bio_issues)

lemma validate_links:
  assumes "3 \<le> length (name d)" "length (name d) \<le> 15" "length (bio d) \<le> 200"
    "U (background d)" "background d \<noteq> []" "U (avatar d)" "avatar d \<noteq> []"
    "(k, v) \<in> set (clean_links (links d))" "\<not> U v"
  shows "validate U d = Inl ''Invalid URL''"
proof -
  have "filter (\<lambda>(k, v). \<not> U v) (clean_links (links d)) \<noteq> []"
    using assms(8,9) by (auto simp: filter_empty_conv)
  then obtain x xs where "filter (\<lambda>(k, v). \<not> U v) (clean_links (links d)) = x # xs"
    by (cases "filter (\<lambda>(k, v). \<not> U v) (clean_links (links d))") auto
  then show ?thesis using assms(1-7)
    by (auto simp: validate_Inl_iff profileSchema_issues_eq name_issues bio_issues
        background_issues avatar_issues link_issues)
qed

section \<open>The claims\<close>

lemmas run_defs =
  handleSaveChanges_def not_authenticated_def save_as_def build_payload_def validate_def
  profileSchema_parse_def profileSchema_issues_def string_issues_def record_issues_def
  name_checks_def bio_checks_def background_checks_def avatar_checks_def link_checks_def
  nonempty_def name_length_msg_def clean_links_def AList.delete_eq ok_def accepted_def succeeded_def Let_def

lemmas example_defs = example_form_def alice_def long_bio_def answering_def example_urls_def

subsection \<open>The order of the reported violation\<close>

text \<open>
  Whatever the other fields and the URL check are, an empty name raises the length issue
  first and the issue \<open>Name cannot be empty\<close> second, because \<open>.nonempty\<close> is chained
  after \<open>.min(3)\<close> and \<open>.max(15)\<close>.
\<close>

lemma empty_name_first_issue:
  "take 2 (profileSchema_issues U (d\<lparr>name := ''''\<rparr>))
     = [''Name must be between 3 and 15 characters long'', ''Name cannot be empty'']
   \<and> validate U (d\<lparr>name := ''''\<rparr>) = Inl ''Name must be between 3 and 15 characters long''"
  using validate_name [of "d\<lparr>name := ''''\<rparr>" U]
  by (simp add: profileSchema_issues_eq name_issues name_length_msg_def)

text \<open>
  C1. The claim: a run reports exactly one violation, the first in the order name
  non-empty, name length, bio length, background URL, avatar URL, links, and for the empty
  name it reports the name-non-empty violation. On the draft with the empty name and
  every other field in order, the thrown error holds the length issue first and
  \<open>Name cannot be empty\<close> second, and the run displays the length message.
\<close>

theorem empty_name_reported_as_length:
  "profileSchema_parse example_urls (example_form '''' '''' [])
     = Inl (ZodError ''Name must be between 3 and 15 characters long'' [''Name cannot be empty''])
   \<and> validate example_urls (example_form '''' '''' [])
       = Inl ''Name must be between 3 and 15 characters long''
   \<and> error (fst (handleSaveChanges (answering (Responded 200 (JStr ''Profile updated'')))
        (Some ''u1'') (example_form '''' '''' [])))
       = Some ''Name must be between 3 and 15 characters long''"
  by (simp add: run_defs example_defs)

subsection \<open>No user identifier\<close>

text \<open>
  C2. A run with no user identifier (\<open>undefined\<close>, or the empty string, which \<open>!userId\<close>
  treats alike) ends with the error \<open>User not authenticated\<close>; it has parsed nothing and
  requested nothing, and has left the links as they were.
\<close>

theorem unauthenticated_short_circuits:
  "uid = None \<or> uid = Some '''' \<Longrightarrow>
   handleSaveChanges env uid st
     = (st\<lparr>message := None, error := Some ''User not authenticated'', saving := False\<rparr>, [])"
  by (rule handle_no_user)

theorem unauthenticated_short_circuits_witness:
  "((None :: string option) = None \<or> None = Some '''')
   \<and> handleSaveChanges (answering Threw) None alice
       = (alice\<lparr>message := None, error := Some ''User not authenticated'', saving := False\<rparr>, [])"
  using unauthenticated_short_circuits [of None "answering Threw" alice] by simp

subsection \<open>The empty bio\<close>

lemma alice_valid:
  "validate example_urls alice = Inr (alice\<lparr>links := []\<rparr>)"
  by (simp add: run_defs example_defs)

text \<open>
  C3, as amended. For a valid draft whose bio is the empty string, the one request of the
  run carries \<open>null\<close> as \<open>newBio\<close>.
\<close>

theorem empty_bio_sent_as_null:
  assumes "validate (url_parses env) st = Inr d" and "bio st = ''''"
  shows "map newBio (requests (snd (handleSaveChanges env (Some (c # cs)) st))) = [None]"
proof -
  have "bio d = ''''"
    using assms by (auto simp: validate_Inr_iff)
  then have "newBio (build_payload (c # cs) d) = None"
    by (simp add: build_payload_def)
  then show ?thesis
    by (simp add: handle_valid [OF assms(1)] split: fetch_outcome.splits)
qed

theorem empty_bio_sent_as_null_witness:
  "validate (url_parses (answering (Responded 200 (JStr ''Profile updated'')))) alice
     = Inr (alice\<lparr>links := []\<rparr>)
   \<and> bio alice = ''''
   \<and> map newBio (requests (snd (handleSaveChanges
        (answering (Responded 200 (JStr ''Profile updated''))) (Some ''u1'') alice))) = [None]"
proof -
  have v: "validate (url_parses (answering (Responded 200 (JStr ''Profile updated'')))) alice
     = Inr (alice\<lparr>links := []\<rparr>)"
    using alice_valid by (simp add: answering_def)
  have b: "bio alice = ''''"
    by (simp add: example_defs)
  show ?thesis
    using v b empty_bio_sent_as_null [OF v b, of "CHR ''u''" "''1''"] by simp
qed

text \<open>
  C3, as claimed (the empty bio is sent as the string \<open>no bio\<close>), fails on a valid draft
  with the empty bio.
\<close>

theorem empty_bio_not_no_bio:
  "validate example_urls alice = Inr (alice\<lparr>links := []\<rparr>)
   \<and> bio alice = ''''
   \<and> map newBio (requests (snd (handleSaveChanges
        (answering (Responded 200 (JStr ''Profile updated''))) (Some ''u1'') alice)))
      \<noteq> [Some ''no bio'']"
  by (simp add: run_defs example_defs)

subsection \<open>Links\<close>

text \<open>
  C4, as amended. On a links object (distinct keys) the cleaning removes exactly the
  entries whose value is the empty string, and the links raise one \<open>Invalid URL\<close> issue
  for each remaining value that the URL check rejects, none for an empty value. When some
  non-empty value is rejected, \<open>validate\<close> fails and \<open>Invalid URL\<close> is among the issues;
  it is the reported message when name, bio, background and avatar are in order.
\<close>

theorem links_cleaned_then_checked:
  assumes "distinct (map fst (links d))"
  shows "clean_links (links d) = filter (\<lambda>(k, v). v \<noteq> '''') (links d)
   \<and> record_issues (string_issues U link_checks) (clean_links (links d))
       = map (\<lambda>kv. ''Invalid URL'') (filter (\<lambda>(k, v). v \<noteq> '''' \<and> \<not> U v) (links d))
   \<and> ((k, v) \<in> set (links d) \<and> v \<noteq> '''' \<and> \<not> U v \<longrightarrow>
        isl (validate U d)
        \<and> ''Invalid URL'' \<in> set (profileSchema_issues U (d\<lparr>links := clean_links (links d)\<rparr>))
        \<and> (3 \<le> length (name d) \<and> length (name d) \<le> 15 \<and> length (bio d) \<le> 200
             \<and> U (background d) \<and> background d \<noteq> '''' \<and> U (avatar d) \<and> avatar d \<noteq> ''''
            \<longrightarrow> validate U d = Inl ''Invalid URL''))"
proof -
  have clean: "clean_links (links d) = filter (\<lambda>(k, v). v \<noteq> '''') (links d)"
    using assms by (rule clean_links_filter)
  have issues: "record_issues (string_issues U link_checks) (clean_links (links d))
       = map (\<lambda>kv. ''Invalid URL'') (filter (\<lambda>(k, v). v \<noteq> '''' \<and> \<not> U v) (links d))"
    unfolding link_issues clean filter_filter
    by (rule arg_cong [where f = "map (\<lambda>kv. ''Invalid URL'')"], rule filter_cong) auto
  have bad: "isl (validate U d)
        \<and> ''Invalid URL'' \<in> set (profileSchema_issues U (d\<lparr>links := clean_links (links d)\<rparr>))
        \<and> (3 \<le> length (name d) \<and> length (name d) \<le> 15 \<and> length (bio d) \<le> 200
             \<and> U (background d) \<and> background d \<noteq> '''' \<and> U (avatar d) \<and> avatar d \<noteq> ''''
            \<longrightarrow> validate U d = Inl ''Invalid URL'')"
    if kv: "(k, v) \<in> set (links d)" "v \<noteq> ''''" "\<not> U v"
  proof -
    have mem: "(k, v) \<in> set (clean_links (links d))"
      using kv by (simp add: clean)
    then have "(k, v) \<in> set (filter (\<lambda>(k, v). \<not> U v) (clean_links (links d)))"
      using kv by simp
    then have in_links: "''Invalid URL'' \<in> set (record_issues (string_issues U link_checks) (clean_links (links d)))"
      unfolding link_issues by force
    then have in_all: "''Invalid URL'' \<in> set (profileSchema_issues U (d\<lparr>links := clean_links (links d)\<rparr>))"
      by (simp add: profileSchema_issues_eq)
    then have "profileSchema_issues U (d\<lparr>links := clean_links (links d)\<rparr>) \<noteq> []"
      by auto
    then have "isl (validate U d)"
      by (cases "validate U d") (auto simp: validate_Inr_iff)
    with in_all show ?thesis
      using validate_links [of d U k v] mem kv(3) by auto
  qed
  from clean issues bad show ?thesis by blast
qed

theorem links_cleaned_then_checked_witness:
  "distinct (map fst (links (example_form ''Alice'' '''' [(''website'', ''''), (''github'', ''notaurl'')])))
   \<and> clean_links [(''website'', ''''), (''github'', ''notaurl'')] = [(''github'', ''notaurl'')]
   \<and> (''github'', ''notaurl'') \<in> set [(''website'', ''''), (''github'', ''notaurl'')]
   \<and> ''notaurl'' \<noteq> '''' \<and> \<not> example_urls ''notaurl''
   \<and> validate example_urls (example_form ''Alice'' '''' [(''website'', ''''), (''github'', ''notaurl'')])
       = Inl ''Invalid URL''"
proof -
  have d: "distinct (map fst (links (example_form ''Alice'' '''' [(''website'', ''''), (''github'', ''notaurl'')])))"
    by (simp add: example_form_def)
  show ?thesis
    using d links_cleaned_then_checked [OF d, of example_urls "''github''" "''notaurl''"]
    by (simp add: example_form_def example_urls_def)
qed

text \<open>
  C4, as claimed (every non-empty value that is not a URL makes \<open>validate\<close> fail citing an
  invalid URL), fails on a draft whose name is too short: the reported violation is the
  name's.
\<close>

theorem bad_link_behind_bad_name:
  "clean_links (links (example_form ''Al'' '''' [(''website'', ''''), (''github'', ''notaurl'')]))
     = [(''github'', ''notaurl'')]
   \<and> \<not> example_urls ''notaurl''
   \<and> validate example_urls (example_form ''Al'' '''' [(''website'', ''''), (''github'', ''notaurl'')])
       = Inl ''Name must be between 3 and 15 characters long''
   \<and> validate example_urls (example_form ''Al'' '''' [(''website'', ''''), (''github'', ''notaurl'')])
       \<noteq> Inl ''Invalid URL''"
  by (simp add: run_defs example_defs)

subsection \<open>The end-to-end draft\<close>

text \<open>
  C5. For a form whose draft is \<open>{name: "Alice", bio: "", backgroundUrl:
  "https://x.com/a.png", avatarUrl: "https://x.com/b.png", links: {website: ""}}\<close>, and a
  \<open>URL\<close> constructor that accepts the two addresses, validation succeeds, the cleaned links
  are empty, and the request of a run carries \<open>newBio: null\<close> and the empty links.
\<close>

theorem alice_end_to_end:
  assumes "url_parses env ''https://x.com/a.png''" and "url_parses env ''https://x.com/b.png''"
    and "name st = ''Alice''" and "bio st = ''''"
    and "background st = ''https://x.com/a.png''" and "avatar st = ''https://x.com/b.png''"
    and "links st = [(''website'', '''')]"
  shows "validate (url_parses env) st = Inr (st\<lparr>links := []\<rparr>)
   \<and> clean_links (links st) = []
   \<and> map newBio (requests (snd (handleSaveChanges env (Some (c # cs)) st))) = [None]
   \<and> map newLinks (requests (snd (handleSaveChanges env (Some (c # cs)) st))) = [[]]"
proof -
  have clean: "clean_links (links st) = []"
    using assms(7) by (simp add: clean_links_def AList.delete_eq)
  have v: "validate (url_parses env) st = Inr (st\<lparr>links := []\<rparr>)"
    using assms(1-6)
    by (simp add: validate_Inr_iff clean profileSchema_issues_eq name_issues bio_issues
        background_issues avatar_issues link_issues)
  have "newBio (build_payload (c # cs) (st\<lparr>links := []\<rparr>)) = None"
    "newLinks (build_payload (c # cs) (st\<lparr>links := []\<rparr>)) = []"
    using assms(4) by (simp_all add: build_payload_def)
  then show ?thesis
    using clean v by (simp add: handle_valid [OF v] split: fetch_outcome.splits)
qed

theorem alice_end_to_end_witness:
  "url_parses (answering (Responded 200 (JStr ''Profile updated''))) ''https://x.com/a.png''
   \<and> url_parses (answering (Responded 200 (JStr ''Profile updated''))) ''https://x.com/b.png''
   \<and> name alice = ''Alice'' \<and> bio alice = []
   \<and> background alice = ''https://x.com/a.png'' \<and> avatar alice = ''https://x.com/b.png''
   \<and> links alice = [(''website'', [])]
   \<and> validate example_urls alice = Inr (alice\<lparr>links := []\<rparr>)
   \<and> clean_links (links alice) = []
   \<and> map newBio (requests (snd (handleSaveChanges (answering (Responded 200 (JStr ''Profile updated'')))
        (Some ''u1'') alice))) = [None]
   \<and> map newLinks (requests (snd (handleSaveChanges (answering (Responded 200 (JStr ''Profile updated'')))
        (Some ''u1'') alice))) = [[]]"
  using alice_end_to_end [of "answering (Responded 200 (JStr ''Profile updated''))" alice "CHR ''u''" "''1''"]
  by (simp add: example_defs)

subsection \<open>Bio and name lengths\<close>

text \<open>
  C6, as amended. A draft whose bio is longer than 200 fails validation whatever its other
  fields are, and the bio-length issue is among the issues raised; it is the reported
  violation whenever the name has between 3 and 15 characters, whatever background, avatar
  and links are.
\<close>

theorem long_bio_fails:
  "200 < length (bio d) \<Longrightarrow>
   isl (validate U d)
   \<and> ''Bio must be 200 characters or fewer''
       \<in> set (profileSchema_issues U (d\<lparr>links := clean_links (links d)\<rparr>))
   \<and> (3 \<le> length (name d) \<and> length (name d) \<le> 15 \<longrightarrow>
        validate U d = Inl ''Bio must be 200 characters or fewer'')"
proof -
  assume long: "200 < length (bio d)"
  then have in_all: "''Bio must be 200 characters or fewer''
       \<in> set (profileSchema_issues U (d\<lparr>links := clean_links (links d)\<rparr>))"
    by (simp add: profileSchema_issues_eq bio_issues)
  then have "profileSchema_issues U (d\<lparr>links := clean_links (links d)\<rparr>) \<noteq> []"
    by auto
  then have "isl (validate U d)"
    by (cases "validate U d") (auto simp: validate_Inr_iff)
  with in_all show ?thesis
    using validate_bio [of d U] long by auto
qed

theorem long_bio_fails_witness:
  "200 < length (bio (example_form ''Alice'' long_bio [(''github'', ''notaurl'')]))
   \<and> 3 \<le> length (name (example_form ''Alice'' long_bio [(''github'', ''notaurl'')]))
   \<and> length (name (example_form ''Alice'' long_bio [(''github'', ''notaurl'')])) \<le> 15
   \<and> validate example_urls (example_form ''Alice'' long_bio [(''github'', ''notaurl'')])
       = Inl ''Bio must be 200 characters or fewer''"
proof -
  have l: "200 < length (bio (example_form ''Alice'' long_bio [(''github'', ''notaurl'')]))"
    by (simp add: example_form_def long_bio_def)
  show ?thesis
    using l long_bio_fails [OF l, of example_urls] by (simp add: example_form_def)
qed

text \<open>
  C6, as claimed (the bio-length violation is reported whatever the other fields are),
  fails on a draft whose name is too short as well.
\<close>

theorem long_bio_behind_bad_name:
  "200 < length (bio (example_form ''Al'' long_bio []))
   \<and> validate example_urls (example_form ''Al'' long_bio [])
       = Inl ''Name must be between 3 and 15 characters long''
   \<and> validate example_urls (example_form ''Al'' long_bio [])
       \<noteq> Inl ''Bio must be 200 characters or fewer''"
  by (simp add: run_defs example_defs)

text \<open>
  C7. A draft whose name is shorter than 3 or longer than 15 fails validation with the
  name-length message, whatever its other fields are; the witness is the draft named
  \<open>Al\<close>.
\<close>

theorem name_length_rejected:
  "length (name d) < 3 \<or> 15 < length (name d) \<Longrightarrow>
   validate U d = Inl ''Name must be between 3 and 15 characters long''"
  using validate_name [of d U] by (simp add: name_length_msg_def)

theorem name_length_rejected_witness:
  "(length (name (example_form ''Al'' '''' [])) < 3 \<or> 15 < length (name (example_form ''Al'' '''' [])))
   \<and> length (name (example_form ''Al'' '''' [])) = 2
   \<and> validate example_urls (example_form ''Al'' '''' [])
       = Inl ''Name must be between 3 and 15 characters long''"
proof -
  have l: "length (name (example_form ''Al'' '''' [])) < 3 \<or> 15 < length (name (example_form ''Al'' '''' []))"
    by (simp add: example_form_def)
  show ?thesis
    using l name_length_rejected [OF l, of example_urls] by (simp add: example_form_def)
qed

subsection \<open>What a run reports\<close>

text \<open>
  C8. When the run has sent its request and the endpoint answers it with a status outside
  200 to 299 and a body whose message is the string \<open>m\<close>, the displayed error is
  \<open>Error: m\<close> and no success message is set; the witness is the answer 500 with
  \<open>db error\<close>.
\<close>

theorem server_rejection_displayed:
  assumes "snd (handleSaveChanges env uid st) = [Parsed, Requested p]"
    and "update_endpoint env p = Responded status (JStr m)"
    and "\<not> ok status"
  shows "error (fst (handleSaveChanges env uid st)) = Some (''Error: '' @ m)
   \<and> message (fst (handleSaveChanges env uid st)) = None"
proof (cases uid rule: uid_cases)
  case 1
  then show ?thesis
    using assms(1) handle_no_user [of uid env st] by simp
next
  case (2 c cs)
  show ?thesis
  proof (cases "url_parses env" st rule: validate_cases)
    case (1 msg)
    then show ?thesis
      using assms(1) 2 by (simp add: handle_invalid)
  next
    case v: 2
    let ?d = "st\<lparr>links := clean_links (links st)\<rparr>"
    have "p = build_payload (c # cs) ?d"
      using assms(1) \<open>uid = Some (c # cs)\<close>
      by (simp add: handle_valid [OF v] split: fetch_outcome.splits if_splits)
    then have "update_endpoint env (build_payload (c # cs) ?d) = Responded status (JStr m)"
      using assms(2) by simp
    then show ?thesis
      using assms(3) \<open>uid = Some (c # cs)\<close> by (simp add: handle_valid [OF v])
  qed
qed

theorem server_rejection_displayed_witness:
  "snd (handleSaveChanges (answering (Responded 500 (JStr ''db error''))) (Some ''u1'') alice)
     = [Parsed, Requested (build_payload ''u1'' (alice\<lparr>links := []\<rparr>))]
   \<and> update_endpoint (answering (Responded 500 (JStr ''db error'')))
        (build_payload ''u1'' (alice\<lparr>links := []\<rparr>)) = Responded 500 (JStr ''db error'')
   \<and> \<not> ok 500
   \<and> error (fst (handleSaveChanges (answering (Responded 500 (JStr ''db error''))) (Some ''u1'') alice))
       = Some ''Error: db error''
   \<and> message (fst (handleSaveChanges (answering (Responded 500 (JStr ''db error''))) (Some ''u1'') alice))
       = None"
proof -
  have s: "snd (handleSaveChanges (answering (Responded 500 (JStr ''db error''))) (Some ''u1'') alice)
     = [Parsed, Requested (build_payload ''u1'' (alice\<lparr>links := []\<rparr>))]"
    by (simp add: run_defs example_defs)
  have r: "update_endpoint (answering (Responded 500 (JStr ''db error'')))
        (build_payload ''u1'' (alice\<lparr>links := []\<rparr>)) = Responded 500 (JStr ''db error'')"
    by (simp add: answering_def)
  have n: "\<not> ok 500"
    by (simp add: ok_def)
  show ?thesis
    using s r n server_rejection_displayed [OF s r n] by simp
qed

text \<open>
  Whatever the endpoint answers, a run that was answered with a success status and a body
  that was read leaves the error null and stores the message of the answer; every other
  run sets the error and leaves the success message null.
\<close>

lemma run_outcome:
  "case accepted env (snd (handleSaveChanges env uid st)) of
     None \<Rightarrow> message (fst (handleSaveChanges env uid st)) = None
             \<and> error (fst (handleSaveChanges env uid st)) \<noteq> None
   | Some j \<Rightarrow> error (fst (handleSaveChanges env uid st)) = None
             \<and> message (fst (handleSaveChanges env uid st)) = stored j"
proof (cases uid rule: uid_cases)
  case 1
  then show ?thesis
    by (simp add: handle_no_user [of uid env st] accepted_def)
next
  case (2 c cs)
  show ?thesis
  proof (cases "url_parses env" st rule: validate_cases)
    case (1 msg)
    then show ?thesis
      using 2 by (simp add: handle_invalid accepted_def)
  next
    case v: 2
    show ?thesis
      using \<open>uid = Some (c # cs)\<close>
      by (simp add: handle_valid [OF v] accepted_def split: fetch_outcome.splits)
  qed
qed

text \<open>For a conforming endpoint, the readable success answers are the success answers.\<close>

lemma conforming_accepted:
  assumes "\<And>p. conforms (update_endpoint env p)"
  shows "case accepted env evs of
           None \<Rightarrow> \<not> succeeded env evs
         | Some j \<Rightarrow> succeeded env evs \<and> stored j \<noteq> None"
proof (cases "requests evs")
  case Nil
  then show ?thesis
    by (simp add: accepted_def succeeded_def)
next
  case (Cons p ps)
  have "conforms (update_endpoint env p)"
    by (rule assms)
  then show ?thesis
    using Cons
    by (cases "update_endpoint env p" rule: conforms.cases)
      (simp_all add: accepted_def succeeded_def)
qed

text \<open>
  C9. For an endpoint that conforms to its interface, the outcome of a run does not depend
  on the success message and the error it starts with (both are cleared first), and at its
  end exactly one of the two is set: a successful submission leaves the error null and
  sets the success message, and every other run leaves the success message null and sets
  the error.
\<close>

theorem exactly_one_outcome:
  assumes "\<And>p. conforms (update_endpoint env p)"
  shows "handleSaveChanges env uid (st\<lparr>message := pm, error := pe\<rparr>) = handleSaveChanges env uid st
   \<and> (message (fst (handleSaveChanges env uid st)) = None)
       \<noteq> (error (fst (handleSaveChanges env uid st)) = None)
   \<and> (if succeeded env (snd (handleSaveChanges env uid st))
       then error (fst (handleSaveChanges env uid st)) = None
            \<and> message (fst (handleSaveChanges env uid st)) \<noteq> None
       else message (fst (handleSaveChanges env uid st)) = None
            \<and> error (fst (handleSaveChanges env uid st)) \<noteq> None)"
proof -
  let ?r = "handleSaveChanges env uid st"
  have prior: "handleSaveChanges env uid (st\<lparr>message := pm, error := pe\<rparr>) = ?r"
    by (simp add: handleSaveChanges_def)
  have outcome: "if succeeded env (snd ?r)
       then error (fst ?r) = None \<and> message (fst ?r) \<noteq> None
       else message (fst ?r) = None \<and> error (fst ?r) \<noteq> None"
    using run_outcome [of env uid st] conforming_accepted [OF assms, of "snd ?r"]
    by (cases "accepted env (snd ?r)") auto
  then have "(message (fst ?r) = None) \<noteq> (error (fst ?r) = None)"
    by (auto split: if_splits)
  with prior outcome show ?thesis by blast
qed

theorem exactly_one_outcome_witness:
  "(\<forall>p. conforms (update_endpoint (answering (Responded 200 (JStr ''Profile updated''))) p))
   \<and> handleSaveChanges (answering (Responded 200 (JStr ''Profile updated''))) (Some ''u1'')
        (alice\<lparr>message := Some ''Saved'', error := Some ''Invalid avatar URL''\<rparr>)
       = handleSaveChanges (answering (Responded 200 (JStr ''Profile updated''))) (Some ''u1'') alice
   \<and> succeeded (answering (Responded 200 (JStr ''Profile updated'')))
        (snd (handleSaveChanges (answering (Responded 200 (JStr ''Profile updated''))) (Some ''u1'') alice))
   \<and> error (fst (handleSaveChanges (answering (Responded 200 (JStr ''Profile updated''))) (Some ''u1'') alice))
       = None
   \<and> message (fst (handleSaveChanges (answering (Responded 200 (JStr ''Profile updated''))) (Some ''u1'') alice))
       \<noteq> None
   \<and> (\<forall>p. conforms (update_endpoint (answering (Responded 500 (JStr ''db error''))) p))
   \<and> \<not> succeeded (answering (Responded 500 (JStr ''db error'')))
        (snd (handleSaveChanges (answering (Responded 500 (JStr ''db error''))) (Some ''u1'') alice))
   \<and> message (fst (handleSaveChanges (answering (Responded 500 (JStr ''db error''))) (Some ''u1'') alice))
       = None
   \<and> error (fst (handleSaveChanges (answering (Responded 500 (JStr ''db error''))) (Some ''u1'') alice))
       \<noteq> None"
proof -
  have c: "conforms (update_endpoint (answering (Responded 200 (JStr ''Profile updated''))) p)"
    and c': "conforms (update_endpoint (answering (Responded 500 (JStr ''db error''))) p)" for p
    by (simp_all add: answering_def)
  have s: "succeeded (answering (Responded 200 (JStr ''Profile updated'')))
        (snd (handleSaveChanges (answering (Responded 200 (JStr ''Profile updated''))) (Some ''u1'') alice))"
    and s': "\<not> succeeded (answering (Responded 500 (JStr ''db error'')))
        (snd (handleSaveChanges (answering (Responded 500 (JStr ''db error''))) (Some ''u1'') alice))"
    by (simp_all add: run_defs example_defs)
  show ?thesis
    using c c' s s'
      exactly_one_outcome [where env = "answering (Responded 200 (JStr ''Profile updated''))"
        and uid = "Some ''u1''" and st = alice and pm = "Some ''Saved''"
        and pe = "Some ''Invalid avatar URL''", OF c]
      exactly_one_outcome [where env = "answering (Responded 500 (JStr ''db error''))"
        and uid = "Some ''u1''" and st = alice, OF c']
    by simp
qed

text \<open>
  The hypothesis is needed: were the endpoint to answer with a success status and a body
  without a message, outside its interface, \<open>setMessage(data.message)\<close> would leave the
  success message unset.
\<close>

lemma reply_without_message:
  "\<not> conforms (update_endpoint (answering (Responded 200 Absent)) p)
   \<and> message (fst (handleSaveChanges (answering (Responded 200 Absent)) (Some ''u1'') alice)) = None
   \<and> error (fst (handleSaveChanges (answering (Responded 200 Absent)) (Some ''u1'') alice)) = None"
  by (simp add: run_defs example_defs)

text \<open>
  C10. For a draft that fails validation, a run sends no request and sets no success
  message; the error it reports is the message of the first violation (with no user
  identifier, the run has stopped before, on \<open>User not authenticated\<close>).
\<close>

theorem invalid_draft_not_submitted:
  assumes "validate (url_parses env) st = Inl msg"
  shows "requests (snd (handleSaveChanges env uid st)) = []
   \<and> message (fst (handleSaveChanges env uid st)) = None
   \<and> error (fst (handleSaveChanges env uid st))
       = Some (if uid = None \<or> uid = Some '''' then ''User not authenticated'' else msg)"
proof (cases uid rule: uid_cases)
  case 1
  then show ?thesis
    using handle_no_user [of uid env st] by auto
next
  case (2 c cs)
  then show ?thesis
    by (simp add: handle_invalid [OF assms])
qed

theorem invalid_draft_not_submitted_witness:
  "validate (url_parses (answering (Responded 200 (JStr ''Profile updated'')))) (example_form ''Al'' '''' [])
     = Inl ''Name must be between 3 and 15 characters long''
   \<and> requests (snd (handleSaveChanges (answering (Responded 200 (JStr ''Profile updated'')))
        (Some ''u1'') (example_form ''Al'' '''' []))) = []
   \<and> message (fst (handleSaveChanges (answering (Responded 200 (JStr ''Profile updated'')))
        (Some ''u1'') (example_form ''Al'' '''' []))) = None
   \<and> error (fst (handleSaveChanges (answering (Responded 200 (JStr ''Profile updated'')))
        (Some ''u1'') (example_form ''Al'' '''' [])))
       = Some ''Name must be between 3 and 15 characters long''"
proof -
  have v: "validate (url_parses (answering (Responded 200 (JStr ''Profile updated'')))) (example_form ''Al'' '''' [])
     = Inl ''Name must be between 3 and 15 characters long''"
    by (simp add: run_defs example_defs)
  show ?thesis
    using v invalid_draft_not_submitted [OF v, of "Some ''u1''"] by simp
qed

end
